theory Spec2Isabelle
  imports Main "HOL-Library.AList" "HOL-Library.Sublist"
begin

section \<open>Text and bytes\<close>

text \<open>
  A Python \<open>str\<close> is a sequence of Unicode code points; it is modelled as a list of
  natural numbers, so that every theorem below covers every text the program can
  receive. \<open>bytes\<close> is a list of 8-bit characters. \<open>ustr\<close> reads a literal of the
  source as a \<open>str\<close>.
\<close>

type_synonym codepoint = nat
type_synonym pystr = "codepoint list"
type_synonym bytes = string

definition ustr :: "string \<Rightarrow> pystr" where
  "ustr s = map of_char s"

definition is_upper :: "codepoint \<Rightarrow> bool" where
  "is_upper c = (65 \<le> c \<and> c \<le> 90)"

definition is_lower :: "codepoint \<Rightarrow> bool" where
  "is_lower c = (97 \<le> c \<and> c \<le> 122)"

definition is_digit :: "codepoint \<Rightarrow> bool" where
  "is_digit c = (48 \<le> c \<and> c \<le> 57)"

text \<open>
  The class \<open>\s\<close> of \<open>re\<close> on a \<open>str\<close> pattern, which is also what \<open>str.strip()\<close>
  removes: the code points CPython counts as white space.
\<close>

definition is_space :: "codepoint \<Rightarrow> bool" where
  "is_space c = ((9 \<le> c \<and> c \<le> 13) \<or> (28 \<le> c \<and> c \<le> 32) \<or> c = 133 \<or> c = 160
     \<or> c = 5760 \<or> (8192 \<le> c \<and> c \<le> 8202) \<or> c = 8232 \<or> c = 8233 \<or> c = 8239
     \<or> c = 8287 \<or> c = 12288)"

definition ascii_lower :: "codepoint \<Rightarrow> codepoint" where
  "ascii_lower c = (if is_upper c then c + 32 else c)"

text \<open>
  \<open>str.lower()\<close>. On text of ASCII code points only it lowers \<open>A\<close> to \<open>Z\<close> and
  keeps the rest. On other text it applies the case mapping of the Unicode database,
  which is not part of the repository: that mapping is the parameter \<open>U\<close>.
\<close>

definition str_lower :: "(pystr \<Rightarrow> pystr) \<Rightarrow> pystr \<Rightarrow> pystr" where
  "str_lower U s = (if list_all (\<lambda>c. c < 128) s then map ascii_lower s else U s)"

text \<open>\<open>str.strip()\<close> without argument.\<close>

definition str_strip :: "pystr \<Rightarrow> pystr" where
  "str_strip s = rev (dropWhile is_space (rev (dropWhile is_space s)))"

text \<open>\<open>needle in haystack\<close> on \<open>str\<close>.\<close>

fun str_contains :: "'a list \<Rightarrow> 'a list \<Rightarrow> bool" where
  "str_contains needle [] = (needle = [])"
| "str_contains needle (c # cs) = (prefix needle (c # cs) \<or> str_contains needle cs)"

text \<open>\<open>s.endswith(t)\<close> and \<open>s.startswith(t)\<close>.\<close>

definition endswith :: "'a list \<Rightarrow> 'a list \<Rightarrow> bool" where
  "endswith s t = suffix t s"

definition startswith :: "'a list \<Rightarrow> 'a list \<Rightarrow> bool" where
  "startswith s t = prefix t s"

text \<open>
  \<open>re.sub(r'X+', r, s)\<close> for a character class \<open>X\<close>: each maximal run of
  characters of the class is replaced by \<open>r\<close>.
\<close>

function sub_runs :: "('a \<Rightarrow> bool) \<Rightarrow> 'a list \<Rightarrow> 'a list \<Rightarrow> 'a list" where
  "sub_runs P r [] = []"
| "sub_runs P r (c # cs) =
     (if P c then r @ sub_runs P r (dropWhile P cs) else c # sub_runs P r cs)"
  by pat_completeness auto
termination
  by (relation "measure (\<lambda>(P, r, s). length s)")
     (auto simp: le_imp_less_Suc length_dropWhile_le)

section \<open>Name sanitizer\<close>

text \<open>The class \<open>[a-zA-Z0-9.-]\<close> of \<open>sanitize_filename\<close>.\<close>

definition filename_char :: "codepoint \<Rightarrow> bool" where
  "filename_char c = (is_lower c \<or> is_upper c \<or> is_digit c \<or> c = 46 \<or> c = 45)"

text \<open>The class \<open>[a-zA-Z0-9\s-]\<close> of \<open>sanitize_folder_name\<close>.\<close>

definition folder_char :: "codepoint \<Rightarrow> bool" where
  "folder_char c = (is_lower c \<or> is_upper c \<or> is_digit c \<or> is_space c \<or> c = 45)"

definition sanitize_filename :: "(pystr \<Rightarrow> pystr) \<Rightarrow> pystr \<Rightarrow> pystr" where
  "sanitize_filename U filename =
     (let sanitized = map (\<lambda>c. if filename_char c then c else 95) filename;
          sanitized = sub_runs (\<lambda>c. c = 95) (ustr ''_'') sanitized
      in str_lower U sanitized)"

definition sanitize_folder_name :: "(pystr \<Rightarrow> pystr) \<Rightarrow> pystr \<Rightarrow> pystr" where
  "sanitize_folder_name U folder_name =
     (let sanitized = filter folder_char folder_name;
          sanitized = sub_runs is_space (ustr ''-'') sanitized;
          sanitized = sub_runs (\<lambda>c. c = 45) (ustr ''-'') sanitized
      in str_strip (str_lower U sanitized))"

section \<open>Categorizer\<close>

text \<open>\<open>any(keyword in text for keyword in keywords)\<close>.\<close>

definition any_keyword_in :: "pystr list \<Rightarrow> pystr \<Rightarrow> bool" where
  "any_keyword_in keywords text = list_ex (\<lambda>keyword. str_contains keyword text) keywords"

definition manuals_keywords :: "pystr list" where
  "manuals_keywords = map ustr
     [''child welfare manual'', ''cws manual'', ''adoptions'',
      ''cps-assessments'', ''cps-intake'', ''cross-functions'',
      ''permanency-planning'', ''in-home'', ''icpc'',
      ''purpose'', ''rams-manual'', ''evidence-based-prevention'']"

definition appendices_keywords :: "pystr list" where
  "appendices_keywords = map ustr
     [''appendix'', ''funding'', ''pregnancy-services'',
      ''case-record'', ''best-practice'', ''data-collection'', ''cpps'']"

definition practice_keywords :: "pystr list" where
  "practice_keywords = map ustr
     [''practice'', ''resource'', ''guidance'', ''lgbtq'', ''fatality'',
      ''discipline'', ''substance'', ''safety'', ''firearm'',
      ''circles-of-safety'', ''capp'', ''cmep'', ''reasonable'',
      ''prudent'', ''youth-in-transition'']"

definition safe_sleep_keywords :: "pystr list" where
  "safe_sleep_keywords = map ustr [''safe sleep'', ''safesleep'', ''sleep-comic'']"

definition disaster_keywords :: "pystr list" where
  "disaster_keywords = map ustr [''disaster'', ''county-attestation'', ''disaster-plan'']"

definition path_sdm_keywords :: "pystr list" where
  "path_sdm_keywords = map ustr
     [''path'', ''sdm'', ''screening'', ''risk-assessment'',
      ''safety-manual'', ''fsna'', ''csna'', ''technology-usage'']"

definition administrative_keywords :: "pystr list" where
  "administrative_keywords = map ustr [''administrative'', ''dss-admin'']"

text \<open>The text that the rules are matched against: the f-string, lower-cased.\<close>

definition categorize_text :: "(pystr \<Rightarrow> pystr) \<Rightarrow> pystr \<Rightarrow> pystr \<Rightarrow> pystr \<Rightarrow> pystr" where
  "categorize_text U link_text link_url nearby_text =
     str_lower U (link_text @ ustr '' '' @ link_url @ ustr '' '' @ nearby_text)"

definition categorize_section :: "(pystr \<Rightarrow> pystr) \<Rightarrow> pystr \<Rightarrow> pystr \<Rightarrow> pystr \<Rightarrow> pystr" where
  "categorize_section U link_text link_url nearby_text =
     (let text = categorize_text U link_text link_url nearby_text in
      if any_keyword_in manuals_keywords text then ustr ''child-welfare-manuals''
      else if any_keyword_in appendices_keywords text then ustr ''child-welfare-appendices''
      else if any_keyword_in practice_keywords text then ustr ''child-welfare-practice-resources''
      else if any_keyword_in safe_sleep_keywords text then ustr ''safe-sleep-resources''
      else if any_keyword_in disaster_keywords text then ustr ''disaster-preparedness''
      else if any_keyword_in path_sdm_keywords text then ustr ''path-sdm-tools-manuals''
      else if any_keyword_in administrative_keywords text then ustr ''administrative-manuals''
      else ustr ''other-resources'')"

section \<open>Exceptions, the outside world\<close>

text \<open>
  An exception is a value. \<open>ValueError\<close> is the one the program raises itself;
  \<open>LibraryError\<close> stands for whatever the HTTP client, the HTML parser, the URL
  library or the storage client raises. \<open>exn_str\<close> is \<open>str(e)\<close>.
\<close>

datatype exn = ValueError pystr | LibraryError pystr

fun exn_str :: "exn \<Rightarrow> pystr" where
  "exn_str (ValueError m) = m"
| "exn_str (LibraryError m) = m"

text \<open>
  What the HTML parser gives for one \<open><a href=...>\<close> element of the page: the
  target, the stripped text of the element, and the two texts that the traversal of
  the document computes for it (the text around the parent, the nearest heading).
\<close>

record anchor =
  href :: pystr
  get_text :: pystr
  nearby :: pystr
  heading :: pystr

record pdf_link =
  url :: pystr
  pdf_text :: pystr
  nearby_text :: pystr
  section_heading :: pystr

text \<open>The response of a GET that passed \<open>raise_for_status\<close>.\<close>

record response =
  header_content_type :: "pystr option"
  content :: bytes

text \<open>The keyword arguments of \<open>put_object\<close>, and an object of the bucket.\<close>

record put_request =
  Bucket :: pystr
  Key :: pystr
  Body :: bytes
  ContentType :: pystr
  Metadata :: "(pystr \<times> pystr) list"

record s3_object =
  obj_body :: bytes
  obj_content_type :: pystr
  obj_metadata :: "(pystr \<times> pystr) list"

text \<open>
  The state of the outside world: the objects stored, by bucket and key, and the
  number of interactions so far. Every interaction (a request, a write, a reading
  of the clock) sees the world at the current \<open>tick\<close> and advances it, so the same
  request may be answered differently at different moments.
\<close>

record world =
  s3 :: "((pystr \<times> pystr) \<times> s3_object) list"
  tick :: nat

text \<open>
  The libraries and services that the processor calls but the repository does not
  contain, as parameters: the Unicode case mapping, the configured bucket, the clock
  (\<open>datetime.now().isoformat()\<close>), the fetch and parse of a page, \<open>urljoin\<close>, the
  path of \<open>urlparse\<close>, the GET of a document with \<open>raise_for_status\<close>, and whether
  the store refuses a write.
\<close>

record env =
  unicode_lower :: "pystr \<Rightarrow> pystr"
  bucket_name :: pystr
  clock :: "nat \<Rightarrow> pystr"
  get_page :: "nat \<Rightarrow> pystr \<Rightarrow> exn + anchor list"
  urljoin :: "pystr \<Rightarrow> pystr \<Rightarrow> exn + pystr"
  urlparse_path :: "pystr \<Rightarrow> exn + pystr"
  session_get :: "nat \<Rightarrow> pystr \<Rightarrow> exn + response"
  put_object_refused :: "nat \<Rightarrow> put_request \<Rightarrow> exn option"

definition advance :: "world \<Rightarrow> world" where
  "advance w = w\<lparr>tick := Suc (tick w)\<rparr>"

definition now_isoformat :: "env \<Rightarrow> world \<Rightarrow> pystr \<times> world" where
  "now_isoformat e w = (clock e (tick w), advance w)"

text \<open>A write that the store accepts replaces whatever was at the key.\<close>

definition put_object :: "env \<Rightarrow> world \<Rightarrow> put_request \<Rightarrow> (exn + unit) \<times> world" where
  "put_object e w req =
     (case put_object_refused e (tick w) req of
        Some x \<Rightarrow> (Inl x, advance w)
      | None \<Rightarrow>
          (Inr (),
           advance (w\<lparr>s3 := AList.update (Bucket req, Key req)
                      \<lparr>obj_body = Body req, obj_content_type = ContentType req,
                       obj_metadata = Metadata req\<rparr> (s3 w)\<rparr>)))"

section \<open>Link discovery\<close>

fun collect_links :: "env \<Rightarrow> pystr \<Rightarrow> anchor list \<Rightarrow> exn + pdf_link list" where
  "collect_links e page [] = Inr []"
| "collect_links e page (link # links) =
     (if endswith (href link) (ustr ''.pdf'') \<or> str_contains (ustr ''.pdf'') (href link)
      then (let link_text = (if get_text link = [] then ustr ''PDF Document'' else get_text link)
            in case urljoin e page (href link) of
                 Inl x \<Rightarrow> Inl x
               | Inr full_url \<Rightarrow>
                   (case collect_links e page links of
                      Inl x \<Rightarrow> Inl x
                    | Inr pdf_links \<Rightarrow>
                        Inr (\<lparr>url = full_url, pdf_text = link_text, nearby_text = nearby link,
                              section_heading = heading link\<rparr> # pdf_links)))
      else collect_links e page links)"

fun unique_links :: "pystr list \<Rightarrow> pdf_link list \<Rightarrow> pdf_link list" where
  "unique_links seen_urls [] = []"
| "unique_links seen_urls (link # links) =
     (if url link \<notin> set seen_urls
      then link # unique_links (url link # seen_urls) links
      else unique_links seen_urls links)"

definition discover_pdf_links :: "env \<Rightarrow> world \<Rightarrow> pystr \<Rightarrow> (exn + pdf_link list) \<times> world" where
  "discover_pdf_links e w page =
     (case get_page e (tick w) page of
        Inl x \<Rightarrow> (Inl x, advance w)
      | Inr anchors \<Rightarrow>
          (case collect_links e page anchors of
             Inl x \<Rightarrow> (Inl x, advance w)
           | Inr pdf_links \<Rightarrow> (Inr (unique_links [] pdf_links), advance w)))"

section \<open>Uploader and downloader\<close>

record upload_result =
  up_success :: bool
  up_key :: pystr
  up_bucket :: pystr

definition upload_to_s3 ::
  "env \<Rightarrow> world \<Rightarrow> bytes \<Rightarrow> pystr \<Rightarrow> pystr \<Rightarrow> (exn + upload_result) \<times> world" where
  "upload_to_s3 e w body filename section =
     (let sanitized_name = sanitize_filename (unicode_lower e) filename;
          sanitized_section = sanitize_folder_name (unicode_lower e) section;
          key = ustr ''ncdhhs-pdfs/'' @ sanitized_section @ ustr ''/'' @ sanitized_name;
          (upload_date, w1) = now_isoformat e w;
          (last_updated, w2) = now_isoformat e w1
      in case put_object e w2
             \<lparr>Bucket = bucket_name e, Key = key, Body = body,
              ContentType = ustr ''application/pdf'',
              Metadata = [(ustr ''upload-date'', upload_date),
                          (ustr ''original-name'', filename),
                          (ustr ''source'', ustr ''ncdhhs-policies''),
                          (ustr ''section'', section),
                          (ustr ''last-updated'', last_updated)]\<rparr> of
           (Inl x, w3) \<Rightarrow> (Inl x, w3)
         | (Inr _, w3) \<Rightarrow>
             (Inr \<lparr>up_success = True, up_key = key, up_bucket = bucket_name e\<rparr>, w3))"

definition download_pdf :: "env \<Rightarrow> world \<Rightarrow> pystr \<Rightarrow> (exn + bytes \<times> pystr) \<times> world" where
  "download_pdf e w link_url =
     (case session_get e (tick w) link_url of
        Inl x \<Rightarrow> (Inl x, advance w)
      | Inr resp \<Rightarrow>
          (let content_type =
                 str_lower (unicode_lower e)
                   (case header_content_type resp of None \<Rightarrow> [] | Some h \<Rightarrow> h);
               body = content resp
           in if \<not> startswith body ''%PDF'' \<and> \<not> str_contains (ustr ''pdf'') content_type
              then (Inl (ValueError
                      (ustr ''Invalid file type. Expected PDF, got: '' @ content_type)),
                    advance w)
              else (Inr (body, content_type), advance w)))"

section \<open>Pipeline orchestrator\<close>

record result_entry =
  original_url :: pystr
  filename :: pystr
  link_text :: pystr
  res_section :: pystr
  s3_key :: pystr
  size :: nat
  content_type :: pystr
  timestamp :: pystr

record error_entry =
  err_url :: pystr
  err_link_text :: pystr
  err_error :: pystr

record summary =
  total :: nat
  successful :: nat
  failed :: nat
  sections :: "(pystr \<times> nat) list"

text \<open>
  The three shapes of the dictionary that \<open>process_pdfs\<close> returns: no link found
  (summary, results, message), links processed (summary, results, errors or
  \<open>None\<close>, the page, a timestamp), and failure (error message, timestamp).
\<close>

datatype process_result =
    No_Links summary "result_entry list" pystr
  | Processed summary "result_entry list" "error_entry list option" pystr pystr
  | Failed pystr pystr

fun success :: "process_result \<Rightarrow> bool" where
  "success (No_Links _ _ _) = True"
| "success (Processed _ _ _ _ _) = True"
| "success (Failed _ _) = False"

fun summary_of :: "process_result \<Rightarrow> summary option" where
  "summary_of (No_Links s _ _) = Some s"
| "summary_of (Processed s _ _ _ _) = Some s"
| "summary_of (Failed _ _) = None"

fun results_of :: "process_result \<Rightarrow> result_entry list" where
  "results_of (No_Links _ rs _) = rs"
| "results_of (Processed _ rs _ _ _) = rs"
| "results_of (Failed _ _) = []"

text \<open>The list under the key \<open>errors\<close>; the key is absent or \<open>None\<close> when nothing failed.\<close>

fun errors_of :: "process_result \<Rightarrow> error_entry list" where
  "errors_of (Processed _ _ (Some es) _ _) = es"
| "errors_of _ = []"

text \<open>\<open>os.path.basename\<close>: what follows the last slash.\<close>

definition basename :: "pystr \<Rightarrow> pystr" where
  "basename p = rev (takeWhile (\<lambda>c. c \<noteq> 47) (rev p))"

text \<open>\<open>d[k] = d.get(k, 0) + 1\<close> on a dictionary kept in insertion order.\<close>

definition count_section :: "pystr \<Rightarrow> (pystr \<times> nat) list \<Rightarrow> (pystr \<times> nat) list" where
  "count_section k d =
     AList.update k ((case map_of d k of None \<Rightarrow> 0 | Some n \<Rightarrow> n) + 1) d"

text \<open>
  The body of the \<open>try\<close> of one iteration: the result entry or the exception, the
  counters (updated as soon as the category is known) and the world afterwards.
\<close>

definition try_item ::
  "env \<Rightarrow> world \<Rightarrow> (pystr \<times> nat) list \<Rightarrow> pdf_link
     \<Rightarrow> (exn + result_entry) \<times> (pystr \<times> nat) list \<times> world" where
  "try_item e w section_counts l =
     (case urlparse_path e (url l) of
        Inl x \<Rightarrow> (Inl x, section_counts, w)
      | Inr path \<Rightarrow>
          (let original_filename = basename path;
               original_filename =
                 (if original_filename = [] \<or> \<not> endswith original_filename (ustr ''.pdf'')
                  then sanitize_filename (unicode_lower e)
                         (if pdf_text l = [] then ustr ''document'' else pdf_text l) @ ustr ''.pdf''
                  else original_filename);
               sect = categorize_section (unicode_lower e) (pdf_text l) (url l)
                        (nearby_text l @ ustr '' '' @ section_heading l);
               section_counts = count_section sect section_counts
           in case download_pdf e w (url l) of
                (Inl x, w1) \<Rightarrow> (Inl x, section_counts, w1)
              | (Inr (body, ctype), w1) \<Rightarrow>
                  (case upload_to_s3 e w1 body original_filename sect of
                     (Inl x, w2) \<Rightarrow> (Inl x, section_counts, w2)
                   | (Inr upload, w2) \<Rightarrow>
                       (let (ts, w3) = now_isoformat e w2
                        in (Inr \<lparr>original_url = url l, filename = original_filename,
                                 link_text = pdf_text l, res_section = sect,
                                 s3_key = up_key upload, size = length body,
                                 content_type = ctype, timestamp = ts\<rparr>,
                            section_counts, w3)))))"

record progress =
  results :: "result_entry list"
  errors :: "error_entry list"
  section_counts :: "(pystr \<times> nat) list"

text \<open>The \<open>for\<close> loop: the \<open>except\<close> branch appends an error entry and goes on.\<close>

fun process_loop :: "env \<Rightarrow> world \<Rightarrow> progress \<Rightarrow> pdf_link list \<Rightarrow> progress \<times> world" where
  "process_loop e w p [] = (p, w)"
| "process_loop e w p (l # ls) =
     (case try_item e w (section_counts p) l of
        (Inr r, counts, w') \<Rightarrow>
          process_loop e w' (p\<lparr>results := results p @ [r], section_counts := counts\<rparr>) ls
      | (Inl x, counts, w') \<Rightarrow>
          process_loop e w'
            (p\<lparr>errors := errors p @
                   [\<lparr>err_url = url l, err_link_text = pdf_text l, err_error = exn_str x\<rparr>],
               section_counts := counts\<rparr>) ls)"

definition process_pdfs :: "env \<Rightarrow> world \<Rightarrow> pystr \<Rightarrow> process_result \<times> world" where
  "process_pdfs e w page =
     (case discover_pdf_links e w page of
        (Inl x, w1) \<Rightarrow>
          (let (ts, w2) = now_isoformat e w1 in (Failed (exn_str x) ts, w2))
      | (Inr pdf_links, w1) \<Rightarrow>
          if pdf_links = []
          then (No_Links \<lparr>total = 0, successful = 0, failed = 0, sections = []\<rparr> []
                  (ustr ''No PDF links found on the specified page''), w1)
          else (let (p, w2) =
                      process_loop e w1 \<lparr>results = [], errors = [], section_counts = []\<rparr>
                        pdf_links;
                    (ts, w3) = now_isoformat e w2
                in (Processed
                      \<lparr>total = length pdf_links, successful = length (results p),
                       failed = length (errors p), sections = section_counts p\<rparr>
                      (results p) (if errors p = [] then None else Some (errors p))
                      page ts,
                    w3)))"

section \<open>Notions used to state the properties\<close>

text \<open>The characters of a sanitized folder name: \<open>a\<close> to \<open>z\<close>, digits, the hyphen.\<close>

definition slug_char :: "codepoint \<Rightarrow> bool" where
  "slug_char c = (is_lower c \<or> is_digit c \<or> c = 45)"

text \<open>\<open>sum(sections.values())\<close>.\<close>

definition sum_counts :: "(pystr \<times> nat) list \<Rightarrow> nat" where
  "sum_counts d = sum_list (map snd d)"

text \<open>
  The categorizer as the specification words it: a fixed ordered list of rules, each a
  set of keywords with a label, and the label of the first rule that has a keyword in
  the text, or the default label.
\<close>

definition category_rules :: "(pystr list \<times> pystr) list" where
  "category_rules =
     [(manuals_keywords, ustr ''child-welfare-manuals''),
      (appendices_keywords, ustr ''child-welfare-appendices''),
      (practice_keywords, ustr ''child-welfare-practice-resources''),
      (safe_sleep_keywords, ustr ''safe-sleep-resources''),
      (disaster_keywords, ustr ''disaster-preparedness''),
      (path_sdm_keywords, ustr ''path-sdm-tools-manuals''),
      (administrative_keywords, ustr ''administrative-manuals'')]"

fun first_match :: "(pystr list \<times> pystr) list \<Rightarrow> pystr \<Rightarrow> pystr" where
  "first_match [] t = ustr ''other-resources''"
| "first_match ((keywords, label) # rules) t =
     (if any_keyword_in keywords t then label else first_match rules t)"

text \<open>
  The metadata of a stored document, with the two readings of the clock, and the
  request that an upload of \<open>body\<close> as \<open>fname\<close> in the category \<open>sect\<close> sends
  to the store when it starts in the world \<open>w\<close>.
\<close>

definition pdf_metadata :: "pystr \<Rightarrow> pystr \<Rightarrow> pystr \<Rightarrow> pystr \<Rightarrow> (pystr \<times> pystr) list" where
  "pdf_metadata fname sect t1 t2 =
     [(ustr ''upload-date'', t1), (ustr ''original-name'', fname),
      (ustr ''source'', ustr ''ncdhhs-policies''), (ustr ''section'', sect),
      (ustr ''last-updated'', t2)]"

definition upload_request :: "env \<Rightarrow> world \<Rightarrow> bytes \<Rightarrow> pystr \<Rightarrow> pystr \<Rightarrow> put_request" where
  "upload_request e w body fname sect =
     \<lparr>Bucket = bucket_name e,
      Key = ustr ''ncdhhs-pdfs/'' @ sanitize_folder_name (unicode_lower e) sect
              @ ustr ''/'' @ sanitize_filename (unicode_lower e) fname,
      Body = body,
      ContentType = ustr ''application/pdf'',
      Metadata = pdf_metadata fname sect (clock e (tick w)) (clock e (Suc (tick w)))\<rparr>"

text \<open>Whether \<open>urlparse\<close> accepts the URL of a link.\<close>

definition url_parses :: "env \<Rightarrow> pdf_link \<Rightarrow> bool" where
  "url_parses e l = (case urlparse_path e (url l) of Inl _ \<Rightarrow> False | Inr _ \<Rightarrow> True)"

text \<open>The progress of the loop after the \<open>except\<close> branch has run for link \<open>l\<close>.\<close>

definition record_error :: "progress \<Rightarrow> pdf_link \<Rightarrow> exn \<Rightarrow> (pystr \<times> nat) list \<Rightarrow> progress" where
  "record_error p l x counts =
     p\<lparr>errors := errors p @
          [\<lparr>err_url = url l, err_link_text = pdf_text l, err_error = exn_str x\<rparr>],
       section_counts := counts\<rparr>"

text \<open>
  A small world to run the pipeline in: a page at \<open>http://h/\<close> whose parse gives
  \<open>page\<close>; the document \<open>a.pdf\<close> is missing on the server, \<open>c.pdf\<close> is an
  HTML page, \<open>d.pdf\<close> is an HTML page that the server declares as
  \<open>APPLICATION/PDF\<close>, every other document is a PDF served as
  \<open>Application/Octet-Stream\<close>;
  the store accepts every write. The clock shows the seconds of one minute, and ten
  interactions have taken place before the run.
\<close>

definition demo_env :: "(exn + anchor list) \<Rightarrow> env" where
  "demo_env page =
     \<lparr>unicode_lower = id,
      bucket_name = ustr ''bucket'',
      clock = (\<lambda>n. ustr ''2025-01-01T00:00:'' @ [48 + n div 10, 48 + n mod 10]),
      get_page = (\<lambda>n u. page),
      urljoin = (\<lambda>base h. Inr (base @ h)),
      urlparse_path = (\<lambda>u. Inr (drop 8 u)),
      session_get = (\<lambda>n u.
        if u = ustr ''http://h/a.pdf'' then Inl (LibraryError (ustr ''404 Client Error''))
        else if u = ustr ''http://h/c.pdf''
        then Inr \<lparr>header_content_type = Some (ustr ''Text/HTML''), content = ''<html>''\<rparr>
        else if u = ustr ''http://h/d.pdf''
        then Inr \<lparr>header_content_type = Some (ustr ''APPLICATION/PDF''),
                  content = ''<html>''\<rparr>
        else Inr \<lparr>header_content_type = Some (ustr ''Application/Octet-Stream''),
                  content = ''%PDF-1.4''\<rparr>),
      put_object_refused = (\<lambda>n req. None)\<rparr>"

definition demo_anchor :: "string \<Rightarrow> anchor" where
  "demo_anchor h = \<lparr>href = ustr h, get_text = ustr ''Doc'', nearby = [], heading = []\<rparr>"

definition demo_link :: "string \<Rightarrow> pdf_link" where
  "demo_link h =
     \<lparr>url = ustr (''http://h/'' @ h), pdf_text = ustr ''Doc'', nearby_text = [],
      section_heading = []\<rparr>"

definition demo_world :: world where
  "demo_world = \<lparr>s3 = [], tick = 10\<rparr>"

definition demo_page :: pystr where
  "demo_page = ustr ''http://h/''"

definition demo_anchors :: "anchor list" where
  "demo_anchors = [demo_anchor ''a.pdf'', demo_anchor ''b.pdf'', demo_anchor ''c.pdf'']"

text \<open>
  What a run over the three documents leaves: the entry of the one document that is
  stored, the error entries of the two others, and the content of the bucket.
\<close>

definition demo_entry :: result_entry where
  "demo_entry =
     \<lparr>original_url = ustr ''http://h/b.pdf'', filename = ustr ''b.pdf'',
      link_text = ustr ''Doc'', res_section = ustr ''other-resources'',
      s3_key = ustr ''ncdhhs-pdfs/other-resources/b.pdf'', size = 8,
      content_type = ustr ''application/octet-stream'',
      timestamp = ustr ''2025-01-01T00:00:16''\<rparr>"

definition demo_errors :: "error_entry list" where
  "demo_errors =
     [\<lparr>err_url = ustr ''http://h/a.pdf'', err_link_text = ustr ''Doc'',
       err_error = ustr ''404 Client Error''\<rparr>,
      \<lparr>err_url = ustr ''http://h/c.pdf'', err_link_text = ustr ''Doc'',
       err_error = ustr ''Invalid file type. Expected PDF, got: text/html''\<rparr>]"

definition demo_store :: "((pystr \<times> pystr) \<times> s3_object) list" where
  "demo_store =
     [((ustr ''bucket'', ustr ''ncdhhs-pdfs/other-resources/b.pdf''),
       \<lparr>obj_body = ''%PDF-1.4'', obj_content_type = ustr ''application/pdf'',
        obj_metadata =
          [(ustr ''upload-date'', ustr ''2025-01-01T00:00:13''),
           (ustr ''original-name'', ustr ''b.pdf''),
           (ustr ''source'', ustr ''ncdhhs-policies''),
           (ustr ''section'', ustr ''other-resources''),
           (ustr ''last-updated'', ustr ''2025-01-01T00:00:14'')]\<rparr>)]"

section \<open>Facts about text\<close>

lemma str_lower_ascii: "list_all (\<lambda>c. c < 128) s \<Longrightarrow> str_lower U s = map ascii_lower s"
  by (simp add: str_lower_def)

lemma set_sub_runs: "set (sub_runs P r s) \<subseteq> set r \<union> {c \<in> set s. \<not> P c}"
proof (induction P r s rule: sub_runs.induct)
  case (1 P r)
  then show ?case by simp
next
  case (2 P r c cs)
  show ?case
  proof (cases "P c")
    case True
    have "set (dropWhile P cs) \<subseteq> set cs" by (rule set_dropWhileD[THEN subsetI])
    with 2(1)[OF True] True show ?thesis by auto
  next
    case False
    with 2(2)[OF False] show ?thesis by auto
  qed
qed

lemma sub_runs_none: "\<forall>c \<in> set s. \<not> P c \<Longrightarrow> sub_runs P r s = s"
  by (induction s) auto

lemma sub_runs_map:
  "(\<And>c. P (f c) = P c) \<Longrightarrow> map f r = r \<Longrightarrow> sub_runs P r (map f s) = map f (sub_runs P r s)"
proof (induction P r s rule: sub_runs.induct)
  case (1 P r)
  then show ?case by simp
next
  case (2 P r c cs)
  have comp: "P \<circ> f = P" using 2(3) by (simp add: fun_eq_iff)
  show ?case
  proof (cases "P c")
    case True
    have "sub_runs P r (map f (dropWhile P cs)) = map f (sub_runs P r (dropWhile P cs))"
      using 2(1)[OF True] 2(3,4) by simp
    then show ?thesis using True 2(3,4) by (simp add: dropWhile_map comp)
  next
    case False
    then show ?thesis using 2(2)[OF False] 2(3,4) by simp
  qed
qed

lemma dropWhile_sub_runs:
  "t = [] \<or> \<not> P (hd t) \<Longrightarrow> dropWhile P (sub_runs P r t) = sub_runs P r t"
  by (cases t) auto

lemma sub_runs_idem:
  "P x \<Longrightarrow> sub_runs P [x] (sub_runs P [x] s) = sub_runs P [x] s"
proof (induction P "[x]" s rule: sub_runs.induct)
  case (1 P)
  then show ?case by simp
next
  case (2 P c cs)
  show ?case
  proof (cases "P c")
    case True
    have "dropWhile P cs = [] \<or> \<not> P (hd (dropWhile P cs))"
      using hd_dropWhile[of P cs] by blast
    then have "dropWhile P (sub_runs P [x] (dropWhile P cs)) = sub_runs P [x] (dropWhile P cs)"
      by (rule dropWhile_sub_runs)
    then show ?thesis using True 2(1)[OF True] 2(3) by simp
  next
    case False
    then show ?thesis using 2(2)[OF False] 2(3) by simp
  qed
qed

lemma str_strip_none: "\<forall>c \<in> set s. \<not> is_space c \<Longrightarrow> str_strip s = s"
proof -
  assume a: "\<forall>c \<in> set s. \<not> is_space c"
  have "dropWhile is_space s = s" using a by (cases s) auto
  moreover have "dropWhile is_space (rev s) = rev s" using a by (cases "rev s") auto
  ultimately show ?thesis by (simp add: str_strip_def)
qed

lemma ascii_lower_idem: "ascii_lower (ascii_lower c) = ascii_lower c"
  by (simp add: ascii_lower_def is_upper_def)

lemmas char_class_defs = filename_char_def folder_char_def is_lower_def is_upper_def
  is_digit_def is_space_def ascii_lower_def

section \<open>The sanitizers in closed form\<close>

lemma filename_chars:
  "set (sub_runs (\<lambda>c. c = 95) [95] (map (\<lambda>c. if filename_char c then c else 95) s))
     \<subseteq> {c. filename_char c \<or> c = 95}"
  using set_sub_runs[of "\<lambda>c. c = 95" "[95]" "map (\<lambda>c. if filename_char c then c else 95) s"]
  by auto

lemma filename_char_ascii: "filename_char c \<or> c = 95 \<Longrightarrow> c < 128"
  by (auto simp: filename_char_def is_lower_def is_upper_def is_digit_def)

lemma sanitize_filename_eq:
  "sanitize_filename U s =
     map ascii_lower (sub_runs (\<lambda>c. c = 95) [95] (map (\<lambda>c. if filename_char c then c else 95) s))"
proof -
  have "list_all (\<lambda>c. c < 128)
          (sub_runs (\<lambda>c. c = 95) [95] (map (\<lambda>c. if filename_char c then c else 95) s))"
    using filename_chars[of s] filename_char_ascii by (auto simp: list_all_iff)
  then show ?thesis
    by (simp add: sanitize_filename_def ustr_def str_lower_ascii)
qed

lemma sanitize_filename_chars:
  "c \<in> set (sanitize_filename U s) \<Longrightarrow> (filename_char c \<and> \<not> is_upper c) \<or> c = 95"
proof -
  assume "c \<in> set (sanitize_filename U s)"
  then obtain d
    where d: "d \<in> set (sub_runs (\<lambda>c. c = 95) [95]
                        (map (\<lambda>c. if filename_char c then c else 95) s))"
      and c: "c = ascii_lower d"
    by (auto simp: sanitize_filename_eq)
  from d filename_chars[of s] have "filename_char d \<or> d = 95" by auto
  then show ?thesis unfolding c
    by (auto simp: filename_char_def ascii_lower_def is_lower_def is_upper_def is_digit_def)
qed

lemma sanitize_filename_idem:
  "sanitize_filename U (sanitize_filename U x) = sanitize_filename U x"
proof -
  let ?M = "map (\<lambda>c. if filename_char c then c else 95)"
  let ?C = "sub_runs (\<lambda>c. c = 95) [95::nat]"
  let ?t = "sanitize_filename U x"
  have t: "?t = map ascii_lower (?C (?M x))" by (rule sanitize_filename_eq)
  have M: "?M ?t = ?t"
    using sanitize_filename_chars[of _ U x] by (intro map_idI) auto
  have comm: "?C (map ascii_lower (?C (?M x))) = map ascii_lower (?C (?C (?M x)))"
    by (rule sub_runs_map) (auto simp: ascii_lower_def is_upper_def)
  have C: "?C ?t = ?t"
    unfolding t comm by (simp add: sub_runs_idem)
  have "sanitize_filename U ?t = map ascii_lower (?C (?M ?t))" by (rule sanitize_filename_eq)
  also have "\<dots> = map ascii_lower ?t" by (simp only: M C)
  also have "\<dots> = ?t" unfolding t by (simp add: ascii_lower_idem)
  finally show ?thesis .
qed

lemma folder_chars:
  "set (sub_runs (\<lambda>c. c = 45) [45] (sub_runs is_space [45] (filter folder_char s)))
     \<subseteq> {c. is_lower c \<or> is_upper c \<or> is_digit c \<or> c = 45}"
proof -
  have "set (sub_runs is_space [45] (filter folder_char s))
          \<subseteq> {c. is_lower c \<or> is_upper c \<or> is_digit c \<or> c = 45}"
    using set_sub_runs[of is_space "[45]" "filter folder_char s"]
    by (auto simp: folder_char_def)
  then show ?thesis
    using set_sub_runs[of "\<lambda>c. c = 45" "[45]" "sub_runs is_space [45] (filter folder_char s)"]
    by auto
qed

lemma slug_char_lower:
  "is_lower c \<or> is_upper c \<or> is_digit c \<or> c = 45 \<Longrightarrow> slug_char (ascii_lower c)"
  by (auto simp: slug_char_def ascii_lower_def is_lower_def is_upper_def is_digit_def)

lemma slug_char_props:
  assumes "slug_char c"
  shows "c < 128" and "\<not> is_space c" and "folder_char c" and "ascii_lower c = c"
  using assms
  by (auto simp: slug_char_def folder_char_def is_space_def ascii_lower_def is_lower_def
      is_upper_def is_digit_def)

lemma sanitize_folder_name_eq:
  "sanitize_folder_name U s =
     map ascii_lower
       (sub_runs (\<lambda>c. c = 45) [45] (sub_runs is_space [45] (filter folder_char s)))"
proof -
  let ?x = "sub_runs (\<lambda>c. c = 45) [45::nat] (sub_runs is_space [45] (filter folder_char s))"
  have ascii: "list_all (\<lambda>c. c < 128) ?x"
    using folder_chars[of s]
    by (auto simp: list_all_iff is_lower_def is_upper_def is_digit_def)
  have "\<forall>c \<in> set (map ascii_lower ?x). \<not> is_space c"
    using folder_chars[of s] slug_char_lower slug_char_props(2) by auto
  then have "str_strip (map ascii_lower ?x) = map ascii_lower ?x"
    by (rule str_strip_none)
  then show ?thesis
    by (simp add: sanitize_folder_name_def ustr_def str_lower_ascii[OF ascii])
qed

lemma sanitize_folder_name_chars:
  "c \<in> set (sanitize_folder_name U s) \<Longrightarrow> slug_char c"
  using folder_chars[of s] slug_char_lower by (auto simp: sanitize_folder_name_eq)

lemma sanitize_folder_name_idem:
  "sanitize_folder_name U (sanitize_folder_name U x) = sanitize_folder_name U x"
proof -
  let ?H = "sub_runs (\<lambda>c. c = 45) [45::nat]"
  let ?y = "sub_runs is_space [45::nat] (filter folder_char x)"
  let ?t = "sanitize_folder_name U x"
  have t: "?t = map ascii_lower (?H ?y)" by (rule sanitize_folder_name_eq)
  have slug: "\<forall>c \<in> set ?t. slug_char c" using sanitize_folder_name_chars by blast
  have F: "filter folder_char ?t = ?t"
    using slug slug_char_props(3) by (simp add: filter_id_conv)
  have S: "sub_runs is_space [45] ?t = ?t"
    using slug slug_char_props(2) by (intro sub_runs_none) blast
  have comm: "?H (map ascii_lower (?H ?y)) = map ascii_lower (?H (?H ?y))"
    by (rule sub_runs_map) (auto simp: ascii_lower_def is_upper_def)
  have H: "?H ?t = ?t"
    unfolding t comm by (simp add: sub_runs_idem)
  have "sanitize_folder_name U ?t =
          map ascii_lower (?H (sub_runs is_space [45] (filter folder_char ?t)))"
    by (rule sanitize_folder_name_eq)
  also have "\<dots> = map ascii_lower ?t" by (simp only: F S H)
  also have "\<dots> = ?t" using slug slug_char_props(4) by (intro map_idI) blast
  finally show ?thesis .
qed

lemma sanitize_filename_example:
  "sanitize_filename U (ustr ''Test@File#.pdf'') = ustr ''test_file_.pdf''"
  by (simp add: sanitize_filename_eq ustr_def char_class_defs)

lemma sanitize_folder_name_example:
  "sanitize_folder_name U (ustr ''Child   welfare---manual'') = ustr ''child-welfare-manual''"
  by (simp add: sanitize_folder_name_eq ustr_def char_class_defs)

lemma sanitize_folder_name_hyphens:
  "sanitize_folder_name U (ustr ''-a-'') = ustr ''-a-''"
  by (simp add: sanitize_folder_name_eq ustr_def char_class_defs)

section \<open>Evaluating the categorizer\<close>

lemmas keyword_defs = manuals_keywords_def appendices_keywords_def practice_keywords_def
  safe_sleep_keywords_def disaster_keywords_def path_sdm_keywords_def
  administrative_keywords_def

lemmas categorize_eval = categorize_section_def categorize_text_def str_lower_def ustr_def
  ascii_lower_def is_upper_def any_keyword_in_def keyword_defs

lemma categorize_cps_assessment:
  "categorize_section U (ustr ''CPS Assessment'') (ustr ''cps.pdf'') (ustr ''child welfare'')
     = ustr ''other-resources''"
  by (simp add: categorize_eval)

section \<open>Facts about the categorizer\<close>

lemma str_contains_sublist: "str_contains needle s = sublist needle s"
  by (induction s) (auto simp: sublist_Cons_right)

lemma any_keyword_in_iff:
  "any_keyword_in keywords t = (\<exists>k \<in> set keywords. sublist k t)"
  by (simp add: any_keyword_in_def list_ex_iff str_contains_sublist)

lemma first_match_hit:
  "i < length rules \<Longrightarrow> any_keyword_in (fst (rules ! i)) t
     \<Longrightarrow> \<forall>j < i. \<not> any_keyword_in (fst (rules ! j)) t
     \<Longrightarrow> first_match rules t = snd (rules ! i)"
proof (induction rules t arbitrary: i rule: first_match.induct)
  case (1 t)
  then show ?case by simp
next
  case (2 kws label rules t)
  show ?case
  proof (cases i)
    case 0
    with 2(3) show ?thesis by simp
  next
    case (Suc k)
    from 2(4) Suc have no: "\<not> any_keyword_in kws t" by fastforce
    have "first_match rules t = snd (rules ! k)"
    proof (rule 2(1)[OF no])
      show "k < length rules" using 2(2) Suc by simp
      show "any_keyword_in (fst (rules ! k)) t" using 2(3) Suc by simp
      show "\<forall>j<k. \<not> any_keyword_in (fst (rules ! j)) t"
        using 2(4) Suc by fastforce
    qed
    with no Suc show ?thesis by simp
  qed
qed

lemma first_match_default:
  "\<forall>r \<in> set rules. \<not> any_keyword_in (fst r) t \<Longrightarrow> first_match rules t = ustr ''other-resources''"
  by (induction rules t rule: first_match.induct) auto

lemma categorize_section_first_match:
  "categorize_section U a u c = first_match category_rules (categorize_text U a u c)"
  by (simp add: categorize_section_def category_rules_def Let_def)

lemma manual_and_practice_text:
  "categorize_text U (ustr ''CWS Manual'') (ustr ''practice.pdf'') []
     = ustr ''cws manual'' @ ustr '' practice.pdf ''"
  by (simp add: categorize_text_def str_lower_def ustr_def ascii_lower_def is_upper_def)

section \<open>Facts about the downloader, the uploader and the loop\<close>

lemma s3_advance [simp]: "s3 (advance w) = s3 w"
  by (simp add: advance_def)

lemma sum_update_new:
  "map_of d k = None
     \<Longrightarrow> sum_list (map snd (AList.update k v d)) = sum_list (map snd d) + (v::nat)"
  by (induction d) (auto split: if_splits)

lemma sum_update_old:
  "map_of d k = Some n
     \<Longrightarrow> sum_list (map snd (AList.update k v d)) + n = sum_list (map snd d) + (v::nat)"
  by (induction d) (auto split: if_splits)

lemma sum_counts_count_section: "sum_counts (count_section k d) = Suc (sum_counts d)"
proof (cases "map_of d k")
  case None
  then show ?thesis by (simp add: sum_counts_def count_section_def sum_update_new)
next
  case (Some n)
  from sum_update_old[OF Some, of "n + 1"] Some show ?thesis
    by (simp add: sum_counts_def count_section_def)
qed

lemma try_item_counts:
  "try_item e w c l = (r, c', w')
     \<Longrightarrow> sum_counts c' = sum_counts c + (if url_parses e l then 1 else 0)"
  by (auto simp: try_item_def url_parses_def Let_def sum_counts_count_section
      split: sum.splits prod.splits)

lemma try_item_ok_parses: "try_item e w c l = (Inr r, c', w') \<Longrightarrow> url_parses e l"
  by (auto simp: try_item_def url_parses_def split: sum.splits)

lemma process_loop_fail:
  "try_item e w (section_counts p) l = (Inl x, counts, w')
     \<Longrightarrow> process_loop e w p (l # ls) = process_loop e w' (record_error p l x counts) ls"
  by (simp add: record_error_def)

lemma process_loop_ok:
  "try_item e w (section_counts p) l = (Inr r, counts, w')
     \<Longrightarrow> process_loop e w p (l # ls)
         = process_loop e w' (p\<lparr>results := results p @ [r], section_counts := counts\<rparr>) ls"
  by simp


lemma process_loop_inv:
  "process_loop e w p ls = (p', w')
     \<Longrightarrow> length (results p') + length (errors p')
           = length (results p) + length (errors p) + length ls
       \<and> sum_counts (section_counts p')
           = sum_counts (section_counts p) + length (filter (url_parses e) ls)
       \<and> length (results p') \<le> length (results p) + length (filter (url_parses e) ls)
       \<and> (\<exists>rs es. results p' = results p @ rs \<and> errors p' = errors p @ es)"
proof (induction ls arbitrary: w p)
  case Nil
  then show ?case by simp
next
  case (Cons l ls)
  obtain r counts w1 where t: "try_item e w (section_counts p) l = (r, counts, w1)"
    by (cases "try_item e w (section_counts p) l") auto
  note c = try_item_counts[OF t]
  show ?case
  proof (cases r)
    case (Inl x)
    let ?p1 = "record_error p l x counts"
    have "process_loop e w1 ?p1 ls = (p', w')"
      using Cons.prems t Inl by (simp add: record_error_def)
    from Cons.IH[OF this] c show ?thesis
      by (auto simp: record_error_def)
  next
    case (Inr y)
    let ?p1 = "p\<lparr>results := results p @ [y], section_counts := counts\<rparr>"
    have ok: "url_parses e l" using t Inr try_item_ok_parses by blast
    have "process_loop e w1 ?p1 ls = (p', w')"
      using Cons.prems t Inr by simp
    from Cons.IH[OF this] c ok show ?thesis by auto
  qed
qed

lemma process_pdfs_failed:
  "discover_pdf_links e w page = (Inl x, w1)
     \<Longrightarrow> process_pdfs e w page = (Failed (exn_str x) (clock e (tick w1)), advance w1)"
  by (simp add: process_pdfs_def now_isoformat_def)

lemma process_pdfs_no_links:
  "discover_pdf_links e w page = (Inr [], w1)
     \<Longrightarrow> process_pdfs e w page =
           (No_Links \<lparr>total = 0, successful = 0, failed = 0, sections = []\<rparr> []
              (ustr ''No PDF links found on the specified page''), w1)"
  by (simp add: process_pdfs_def)

lemma process_pdfs_links:
  "discover_pdf_links e w page = (Inr links, w1) \<Longrightarrow> links \<noteq> []
     \<Longrightarrow> process_loop e w1 \<lparr>results = [], errors = [], section_counts = []\<rparr> links = (p, w2)
     \<Longrightarrow> process_pdfs e w page =
           (Processed
              \<lparr>total = length links, successful = length (results p),
               failed = length (errors p), sections = section_counts p\<rparr>
              (results p) (if errors p = [] then None else Some (errors p))
              page (clock e (tick w2)),
            advance w2)"
  by (simp add: process_pdfs_def now_isoformat_def)

lemma success_discovered:
  assumes "success (fst (process_pdfs e w page))"
  obtains links w1 where "discover_pdf_links e w page = (Inr links, w1)"
proof (cases "discover_pdf_links e w page")
  case (Pair r w1)
  show ?thesis
  proof (cases r)
    case (Inl x)
    with Pair assms process_pdfs_failed[of e w page x w1] show ?thesis by simp
  next
    case (Inr links)
    with Pair that show ?thesis by simp
  qed
qed

lemma download_pdf_cases:
  assumes "session_get e (tick w) u = Inr resp"
    and "ct = str_lower (unicode_lower e)
                (case header_content_type resp of None \<Rightarrow> [] | Some h \<Rightarrow> h)"
  shows "download_pdf e w u =
           (if prefix ''%PDF'' (content resp) \<or> sublist (ustr ''pdf'') ct
            then (Inr (content resp, ct), advance w)
            else (Inl (ValueError (ustr ''Invalid file type. Expected PDF, got: '' @ ct)),
                  advance w))"
  using assms by (simp add: download_pdf_def startswith_def str_contains_sublist Let_def)

lemma download_pdf_s3: "download_pdf e w u = (r, w') \<Longrightarrow> s3 w' = s3 w"
  by (auto simp: download_pdf_def Let_def split: sum.splits if_splits)

lemma upload_to_s3_eq:
  "upload_to_s3 e w body fname sect =
     (case put_object_refused e (Suc (Suc (tick w))) (upload_request e w body fname sect) of
        Some x \<Rightarrow> (Inl x, w\<lparr>tick := Suc (Suc (Suc (tick w)))\<rparr>)
      | None \<Rightarrow>
          (Inr \<lparr>up_success = True, up_key = Key (upload_request e w body fname sect),
                 up_bucket = bucket_name e\<rparr>,
           \<lparr>s3 = AList.update (bucket_name e, Key (upload_request e w body fname sect))
                   \<lparr>obj_body = body, obj_content_type = ustr ''application/pdf'',
                    obj_metadata =
                      pdf_metadata fname sect (clock e (tick w)) (clock e (Suc (tick w)))\<rparr>
                   (s3 w),
             tick = Suc (Suc (Suc (tick w)))\<rparr>))"
  by (simp add: upload_to_s3_def put_object_def now_isoformat_def advance_def Let_def
      upload_request_def pdf_metadata_def split: option.splits)

lemma upload_to_s3_ok:
  assumes "upload_to_s3 e w body fname sect = (Inr up, w')"
  shows "up_key up = ustr ''ncdhhs-pdfs/'' @ sanitize_folder_name (unicode_lower e) sect
                       @ ustr ''/'' @ sanitize_filename (unicode_lower e) fname"
    and "map_of (s3 w') (bucket_name e, up_key up)
           = Some \<lparr>obj_body = body, obj_content_type = ustr ''application/pdf'',
                   obj_metadata =
                     pdf_metadata fname sect (clock e (tick w)) (clock e (Suc (tick w)))\<rparr>"
  using assms
  by (auto simp: upload_to_s3_eq upload_request_def update_conv split: option.splits)

lemma upload_to_s3_succeeds_iff:
  "(\<exists>up w'. upload_to_s3 e w body fname sect = (Inr up, w'))
     \<longleftrightarrow> put_object_refused e (Suc (Suc (tick w))) (upload_request e w body fname sect) = None"
  by (auto simp: upload_to_s3_eq split: option.splits)

lemma tick_download_pdf: "download_pdf e w u = (r, w') \<Longrightarrow> tick w' = Suc (tick w)"
  by (auto simp: download_pdf_def advance_def Let_def split: sum.splits if_splits)

lemma try_item_succeeds:
  assumes "urlparse_path e (url l) = Inr path"
    and "download_pdf e w (url l) = (Inr (payload, ctype), wd)"
    and "\<forall>req. put_object_refused e (Suc (Suc (tick wd))) req = None"
  shows "\<exists>r c w1. try_item e w counts l = (Inr r, c, w1) \<and> content_type r = ctype"
  using assms
  by (simp add: try_item_def upload_to_s3_eq now_isoformat_def Let_def)

lemma try_item_ok:
  assumes "try_item e w counts l = (Inr r, counts', w')"
  shows "\<exists>body w1 w2 up.
           download_pdf e w (url l) = (Inr (body, content_type r), w1)
         \<and> upload_to_s3 e w1 body (filename r) (res_section r) = (Inr up, w2)
         \<and> s3_key r = up_key up \<and> s3 w' = s3 w2 \<and> size r = length body
         \<and> original_url r = url l"
  using assms
  by (auto simp: try_item_def now_isoformat_def Let_def split: sum.splits prod.splits)

section \<open>A run of the pipeline\<close>

lemma demo_env_fields:
  "unicode_lower (demo_env pg) = id"
  "bucket_name (demo_env pg) = ustr ''bucket''"
  "clock (demo_env pg) n = ustr ''2025-01-01T00:00:'' @ [48 + n div 10, 48 + n mod 10]"
  "get_page (demo_env pg) n u = pg"
  "urljoin (demo_env pg) base h = Inr (base @ h)"
  "urlparse_path (demo_env pg) u = Inr (drop 8 u)"
  "put_object_refused (demo_env pg) n req = None"
  by (simp_all add: demo_env_def)

lemma demo_discover:
  "discover_pdf_links (demo_env (Inr demo_anchors)) demo_world demo_page
     = (Inr [demo_link ''a.pdf'', demo_link ''b.pdf'', demo_link ''c.pdf''],
        \<lparr>s3 = [], tick = 11\<rparr>)"
  by (simp add: discover_pdf_links_def demo_env_fields demo_anchors_def demo_anchor_def
      demo_link_def demo_world_def demo_page_def advance_def endswith_def suffix_to_prefix
      ustr_def)

lemma demo_category:
  "categorize_section id (ustr ''Doc'') (ustr ''http://h/a.pdf'') (ustr '' '')
     = ustr ''other-resources''"
  "categorize_section id (ustr ''Doc'') (ustr ''http://h/b.pdf'') (ustr '' '')
     = ustr ''other-resources''"
  "categorize_section id (ustr ''Doc'') (ustr ''http://h/c.pdf'') (ustr '' '')
     = ustr ''other-resources''"
  by (simp_all add: categorize_eval)

lemma demo_basename:
  "basename (drop 8 (ustr ''http://h/a.pdf'')) = ustr ''a.pdf''"
  "basename (drop 8 (ustr ''http://h/b.pdf'')) = ustr ''b.pdf''"
  "basename (drop 8 (ustr ''http://h/c.pdf'')) = ustr ''c.pdf''"
  by (simp_all add: basename_def ustr_def)

lemma demo_endswith:
  "endswith (ustr ''a.pdf'') (ustr ''.pdf'')"
  "endswith (ustr ''b.pdf'') (ustr ''.pdf'')"
  "endswith (ustr ''c.pdf'') (ustr ''.pdf'')"
  "ustr ''a.pdf'' \<noteq> []" "ustr ''b.pdf'' \<noteq> []" "ustr ''c.pdf'' \<noteq> []"
  by (simp_all add: endswith_def suffix_to_prefix ustr_def)

lemma demo_download_a:
  "download_pdf (demo_env pg) w (ustr ''http://h/a.pdf'')
     = (Inl (LibraryError (ustr ''404 Client Error'')), advance w)"
  by (simp add: download_pdf_def demo_env_def ustr_def)

lemma demo_download_b:
  "download_pdf (demo_env pg) w (ustr ''http://h/b.pdf'')
     = (Inr (''%PDF-1.4'', ustr ''application/octet-stream''), advance w)"
  by (simp add: download_pdf_def demo_env_def ustr_def startswith_def str_lower_def
      ascii_lower_def is_upper_def)

lemma demo_download_c:
  "download_pdf (demo_env pg) w (ustr ''http://h/c.pdf'')
     = (Inl (ValueError (ustr ''Invalid file type. Expected PDF, got: text/html'')), advance w)"
  by (simp add: download_pdf_def demo_env_def ustr_def startswith_def str_lower_def
      ascii_lower_def is_upper_def)

lemma demo_key:
  "ustr ''ncdhhs-pdfs/'' @ sanitize_folder_name id (ustr ''other-resources'')
     @ ustr ''/'' @ sanitize_filename id (ustr ''b.pdf'')
   = ustr ''ncdhhs-pdfs/other-resources/b.pdf''"
  by (simp add: sanitize_filename_eq sanitize_folder_name_eq ustr_def char_class_defs)

lemma demo_upload_b:
  "upload_to_s3 (demo_env pg) w ''%PDF-1.4'' (ustr ''b.pdf'') (ustr ''other-resources'')
     = (Inr \<lparr>up_success = True, up_key = ustr ''ncdhhs-pdfs/other-resources/b.pdf'',
             up_bucket = ustr ''bucket''\<rparr>,
        \<lparr>s3 = AList.update (ustr ''bucket'', ustr ''ncdhhs-pdfs/other-resources/b.pdf'')
                \<lparr>obj_body = ''%PDF-1.4'', obj_content_type = ustr ''application/pdf'',
                 obj_metadata =
                   [(ustr ''upload-date'', clock (demo_env pg) (tick w)),
                    (ustr ''original-name'', ustr ''b.pdf''),
                    (ustr ''source'', ustr ''ncdhhs-policies''),
                    (ustr ''section'', ustr ''other-resources''),
                    (ustr ''last-updated'', clock (demo_env pg) (Suc (tick w)))]\<rparr>
                (s3 w),
          tick = tick w + 3\<rparr>)"
  by (simp add: upload_to_s3_def put_object_def now_isoformat_def advance_def
      demo_env_fields(1,2,7) demo_key Let_def)

lemma demo_link_fields:
  "url (demo_link h) = ustr (''http://h/'' @ h)"
  "pdf_text (demo_link h) = ustr ''Doc''"
  by (simp_all add: demo_link_def)

lemma demo_try_a:
  "try_item (demo_env pg) w counts (demo_link ''a.pdf'')
     = (Inl (LibraryError (ustr ''404 Client Error'')),
        count_section (ustr ''other-resources'') counts, advance w)"
  by (simp add: try_item_def demo_link_def demo_env_fields demo_basename demo_endswith
      demo_category demo_download_a Let_def)

lemma demo_try_c:
  "try_item (demo_env pg) w counts (demo_link ''c.pdf'')
     = (Inl (ValueError (ustr ''Invalid file type. Expected PDF, got: text/html'')),
        count_section (ustr ''other-resources'') counts, advance w)"
  by (simp add: try_item_def demo_link_def demo_env_fields demo_basename demo_endswith
      demo_category demo_download_c Let_def)

lemma demo_try_b:
  "try_item (demo_env pg) \<lparr>s3 = [], tick = 12\<rparr> counts (demo_link ''b.pdf'')
     = (Inr demo_entry, count_section (ustr ''other-resources'') counts,
        \<lparr>s3 = demo_store, tick = 17\<rparr>)"
  by (simp add: try_item_def demo_link_def demo_env_fields demo_basename demo_endswith
      demo_category demo_download_b demo_upload_b now_isoformat_def advance_def Let_def)
     (simp add: ustr_def demo_entry_def demo_store_def)

lemma count_section_first: "count_section k [] = [(k, 1)]"
  by (simp add: count_section_def)

lemma count_section_again: "count_section k [(k, n)] = [(k, Suc n)]"
  by (simp add: count_section_def)

lemma demo_loop:
  "process_loop (demo_env pg) \<lparr>s3 = [], tick = 11\<rparr>
       \<lparr>results = [], errors = [], section_counts = []\<rparr>
       [demo_link ''a.pdf'', demo_link ''b.pdf'', demo_link ''c.pdf'']
     = (\<lparr>results = [demo_entry], errors = demo_errors,
         section_counts = [(ustr ''other-resources'', 3)]\<rparr>,
        \<lparr>s3 = demo_store, tick = 18\<rparr>)"
  by (simp add: demo_try_a demo_try_b demo_try_c advance_def count_section_first
      count_section_again demo_errors_def demo_link_fields)

lemma demo_run:
  "process_pdfs (demo_env (Inr demo_anchors)) demo_world demo_page
     = (Processed
          \<lparr>total = 3, successful = 1, failed = 2,
           sections = [(ustr ''other-resources'', 3)]\<rparr>
          [demo_entry] (Some demo_errors) demo_page (ustr ''2025-01-01T00:00:18''),
        \<lparr>s3 = demo_store, tick = 19\<rparr>)"
  using process_pdfs_links[OF demo_discover _ demo_loop]
  by (simp add: demo_env_fields advance_def demo_errors_def ustr_def)

lemma demo_discover_none:
  "discover_pdf_links (demo_env (Inr [])) demo_world demo_page = (Inr [], \<lparr>s3 = [], tick = 11\<rparr>)"
  by (simp add: discover_pdf_links_def demo_env_fields demo_world_def advance_def)

lemma demo_discover_fails:
  "discover_pdf_links (demo_env (Inl x)) demo_world demo_page = (Inl x, \<lparr>s3 = [], tick = 11\<rparr>)"
  by (simp add: discover_pdf_links_def demo_env_fields demo_world_def advance_def)


section \<open>The claims\<close>

text \<open>
  C1, as the code has it. For every result of \<open>process_pdfs\<close> with \<open>success = true\<close>,
  the sum of the per-category counts in \<open>summary.sections\<close> is the number of discovered
  links that were categorized, that is, whose URL \<open>urlparse\<close> accepted, whether or not
  their download and upload succeeded afterwards: the counter is incremented before the
  download. Every link whose URL is refused is a failed item, and the sum is
  \<open>successful\<close> plus the failed items that are not of this kind (those that failed
  after they were categorized). So \<open>successful \<le> sum(sections.values()) \<le> total\<close>,
  and the sum equals \<open>successful\<close> exactly when every failed item is a link whose URL
  was refused, that is, when no item fails after it was categorized.
\<close>

theorem C1_sections_count_categorized:
  assumes "success (fst (process_pdfs e w page))"
  shows "\<exists>links w1 s. discover_pdf_links e w page = (Inr links, w1)
           \<and> summary_of (fst (process_pdfs e w page)) = Some s
           \<and> sum_counts (sections s) = length (filter (url_parses e) links)
           \<and> length (filter (\<lambda>l. \<not> url_parses e l) links) \<le> failed s
           \<and> sum_counts (sections s)
               = successful s + (failed s - length (filter (\<lambda>l. \<not> url_parses e l) links))
           \<and> successful s \<le> sum_counts (sections s)
           \<and> sum_counts (sections s) \<le> total s
           \<and> ((sum_counts (sections s) = successful s)
                 = (failed s = length (filter (\<lambda>l. \<not> url_parses e l) links)))"
proof -
  from assms obtain links w1 where d: "discover_pdf_links e w page = (Inr links, w1)"
    by (rule success_discovered)
  have split: "length (filter (url_parses e) links)
                 + length (filter (\<lambda>l. \<not> url_parses e l) links) = length links"
    by (rule sum_length_filter_compl)
  show ?thesis
  proof (cases "links = []")
    case True
    with d process_pdfs_no_links[of e w page w1] show ?thesis by (simp add: sum_counts_def)
  next
    case False
    obtain p w2
      where l: "process_loop e w1 \<lparr>results = [], errors = [], section_counts = []\<rparr> links = (p, w2)"
      by (cases "process_loop e w1 \<lparr>results = [], errors = [], section_counts = []\<rparr> links") auto
    from process_loop_inv[OF l]
    have a: "sum_counts (section_counts p) = length (filter (url_parses e) links)"
      and b: "length (results p) \<le> length (filter (url_parses e) links)"
      and c: "length (results p) + length (errors p) = length links"
      by (simp_all add: sum_counts_def)
    let ?s = "\<lparr>total = length links, successful = length (results p),
               failed = length (errors p), sections = section_counts p\<rparr>"
    have r: "summary_of (fst (process_pdfs e w page)) = Some ?s"
      using process_pdfs_links[OF d False l] by simp
    have "sum_counts (sections ?s) = length (filter (url_parses e) links)"
      and "length (filter (\<lambda>l. \<not> url_parses e l) links) \<le> failed ?s"
      and "sum_counts (sections ?s)
             = successful ?s + (failed ?s - length (filter (\<lambda>l. \<not> url_parses e l) links))"
      and "successful ?s \<le> sum_counts (sections ?s)"
      and "sum_counts (sections ?s) \<le> total ?s"
      and "(sum_counts (sections ?s) = successful ?s)
             = (failed ?s = length (filter (\<lambda>l. \<not> url_parses e l) links))"
      using a b c split by auto
    with d r show ?thesis by blast
  qed
qed

theorem C1_sections_count_categorized_witness:
  "success (fst (process_pdfs (demo_env (Inr demo_anchors)) demo_world demo_page))
   \<and> (\<exists>links w1 s.
         discover_pdf_links (demo_env (Inr demo_anchors)) demo_world demo_page = (Inr links, w1)
       \<and> summary_of (fst (process_pdfs (demo_env (Inr demo_anchors)) demo_world demo_page))
           = Some s
       \<and> sum_counts (sections s) = length (filter (url_parses (demo_env (Inr demo_anchors))) links)
       \<and> sum_counts (sections s)
           = successful s
             + (failed s
                - length (filter (\<lambda>l. \<not> url_parses (demo_env (Inr demo_anchors)) l) links))
       \<and> successful s \<le> sum_counts (sections s)
       \<and> sum_counts (sections s) \<le> total s)"
proof -
  have h: "success (fst (process_pdfs (demo_env (Inr demo_anchors)) demo_world demo_page))"
    by (simp add: demo_run)
  from C1_sections_count_categorized[OF h] h show ?thesis by blast
qed

text \<open>
  The claim as it was stated fails. Of three discovered documents one is stored and two
  fail in the download, after they were categorized: the counts of \<open>sections\<close> add up to
  3, and \<open>successful\<close> is 1.
\<close>

theorem C1_counterexample:
  "success (fst (process_pdfs (demo_env (Inr demo_anchors)) demo_world demo_page))
   \<and> summary_of (fst (process_pdfs (demo_env (Inr demo_anchors)) demo_world demo_page))
       = Some \<lparr>total = 3, successful = 1, failed = 2,
               sections = [(ustr ''other-resources'', 3)]\<rparr>
   \<and> sum_counts [(ustr ''other-resources'', 3)] = 3
   \<and> sum_counts [(ustr ''other-resources'', 3)] \<noteq> 1"
  by (simp add: demo_run sum_counts_def)

text \<open>
  C2. The claim is that \<open>categorize_section\<close> applied to the anchor text
  \<open>CPS Assessment\<close>, the url \<open>cps.pdf\<close> and the context \<open>child welfare\<close> returns
  \<open>child-welfare-manuals\<close>, which the basic functionality check of \<open>run_tests.py\<close>
  asserts as well. The code does not: the text matched is
  \<open>cps assessment cps.pdf child welfare\<close>, it holds neither \<open>cps-assessments\<close> nor
  \<open>child welfare manual\<close> nor any other keyword of a rule, and the label returned is
  the default \<open>other-resources\<close>.
\<close>

theorem C2_cps_assessment_other_resources:
  "categorize_section U (ustr ''CPS Assessment'') (ustr ''cps.pdf'') (ustr ''child welfare'')
     = ustr ''other-resources''
   \<and> categorize_section U (ustr ''CPS Assessment'') (ustr ''cps.pdf'') (ustr ''child welfare'')
     \<noteq> ustr ''child-welfare-manuals''"
  by (simp add: categorize_cps_assessment) (simp add: ustr_def)

theorem C2_cps_assessment_other_resources_witness:
  "categorize_section id (ustr ''CPS Assessment'') (ustr ''cps.pdf'') (ustr ''child welfare'')
     = ustr ''other-resources''
   \<and> categorize_section id (ustr ''CPS Assessment'') (ustr ''cps.pdf'') (ustr ''child welfare'')
     \<noteq> ustr ''child-welfare-manuals''"
  by (rule C2_cps_assessment_other_resources)

text \<open>
  C3, as the code has it. For every string \<open>s\<close>, \<open>sanitize_folder_name(s)\<close> consists
  of the characters \<open>a\<close> to \<open>z\<close>, \<open>0\<close> to \<open>9\<close> and \<open>-\<close> only: it is lower-cased
  (\<open>lower()\<close> leaves it as it is) and has no white space at either end (\<open>strip()\<close>
  leaves it as it is).
\<close>

theorem C3_folder_name_lower_no_whitespace:
  "list_all slug_char (sanitize_folder_name U s)
   \<and> str_lower U (sanitize_folder_name U s) = sanitize_folder_name U s
   \<and> str_strip (sanitize_folder_name U s) = sanitize_folder_name U s"
proof -
  have slug: "\<forall>c \<in> set (sanitize_folder_name U s). slug_char c"
    using sanitize_folder_name_chars by blast
  have "list_all (\<lambda>c. c < 128) (sanitize_folder_name U s)"
    using slug slug_char_props(1) by (auto simp: list_all_iff)
  then have "str_lower U (sanitize_folder_name U s) = map ascii_lower (sanitize_folder_name U s)"
    by (rule str_lower_ascii)
  also have "\<dots> = sanitize_folder_name U s"
    using slug slug_char_props(4) by (intro map_idI) blast
  finally have low: "str_lower U (sanitize_folder_name U s) = sanitize_folder_name U s" .
  have "str_strip (sanitize_folder_name U s) = sanitize_folder_name U s"
    using slug slug_char_props(2) by (intro str_strip_none) blast
  with slug low show ?thesis by (simp add: list_all_iff)
qed

theorem C3_folder_name_lower_no_whitespace_witness:
  "list_all slug_char (ustr ''child-welfare-manual'')
   \<and> str_lower id (ustr ''child-welfare-manual'') = ustr ''child-welfare-manual''
   \<and> str_strip (ustr ''child-welfare-manual'') = ustr ''child-welfare-manual''"
  using C3_folder_name_lower_no_whitespace[of id "ustr ''Child   welfare---manual''"]
  by (simp only: sanitize_folder_name_example)

text \<open>
  The claim as it was stated fails: the hyphens at the two ends of \<open>-a-\<close> are kept.
\<close>

theorem C3_counterexample:
  "startswith (sanitize_folder_name id (ustr ''-a-'')) (ustr ''-'')
   \<and> endswith (sanitize_folder_name id (ustr ''-a-'')) (ustr ''-'')"
  by (simp add: sanitize_folder_name_hyphens)
     (simp add: startswith_def endswith_def ustr_def suffix_to_prefix)

text \<open>
  C4. \<open>sanitize_filename\<close> and \<open>sanitize_folder_name\<close> are idempotent: for every
  string \<open>x\<close>, \<open>f(f(x)) == f(x)\<close>.
\<close>

theorem C4_sanitizers_idempotent:
  "sanitize_filename U (sanitize_filename U x) = sanitize_filename U x
   \<and> sanitize_folder_name U (sanitize_folder_name U x) = sanitize_folder_name U x"
  by (simp add: sanitize_filename_idem sanitize_folder_name_idem)

theorem C4_sanitizers_idempotent_witness:
  "sanitize_filename id (sanitize_filename id (ustr ''Test@File#.pdf'')) = ustr ''test_file_.pdf''
   \<and> sanitize_folder_name id (sanitize_folder_name id (ustr ''Child   welfare---manual''))
       = ustr ''child-welfare-manual''"
  using C4_sanitizers_idempotent[of id "ustr ''Test@File#.pdf''"]
    C4_sanitizers_idempotent[of id "ustr ''Child   welfare---manual''"]
  by (simp add: sanitize_filename_example sanitize_folder_name_example)

text \<open>
  C5. For every result of \<open>process_pdfs\<close> with \<open>success = true\<close>, \<open>summary.total\<close> is
  the number of discovered links, \<open>summary.successful\<close> the length of the results list,
  \<open>summary.failed\<close> the length of the errors list, and
  \<open>total == successful + failed\<close>.
\<close>

theorem C5_summary_counts:
  assumes "success (fst (process_pdfs e w page))"
  shows "\<exists>links w1 s. discover_pdf_links e w page = (Inr links, w1)
           \<and> summary_of (fst (process_pdfs e w page)) = Some s
           \<and> total s = length links
           \<and> successful s = length (results_of (fst (process_pdfs e w page)))
           \<and> failed s = length (errors_of (fst (process_pdfs e w page)))
           \<and> total s = successful s + failed s"
proof -
  from assms obtain links w1 where d: "discover_pdf_links e w page = (Inr links, w1)"
    by (rule success_discovered)
  show ?thesis
  proof (cases "links = []")
    case True
    with d process_pdfs_no_links[of e w page w1] show ?thesis by simp
  next
    case False
    obtain p w2
      where l: "process_loop e w1 \<lparr>results = [], errors = [], section_counts = []\<rparr> links = (p, w2)"
      by (cases "process_loop e w1 \<lparr>results = [], errors = [], section_counts = []\<rparr> links") auto
    from process_loop_inv[OF l] have "length (results p) + length (errors p) = length links"
      by simp
    with d process_pdfs_links[OF d False l] show ?thesis by auto
  qed
qed

theorem C5_summary_counts_witness:
  "success (fst (process_pdfs (demo_env (Inr demo_anchors)) demo_world demo_page))
   \<and> (\<exists>links w1 s.
         discover_pdf_links (demo_env (Inr demo_anchors)) demo_world demo_page = (Inr links, w1)
       \<and> summary_of (fst (process_pdfs (demo_env (Inr demo_anchors)) demo_world demo_page))
           = Some s
       \<and> total s = length links
       \<and> successful s
           = length (results_of (fst (process_pdfs (demo_env (Inr demo_anchors)) demo_world
                                       demo_page)))
       \<and> failed s
           = length (errors_of (fst (process_pdfs (demo_env (Inr demo_anchors)) demo_world
                                      demo_page)))
       \<and> total s = successful s + failed s)"
proof -
  have h: "success (fst (process_pdfs (demo_env (Inr demo_anchors)) demo_world demo_page))"
    by (simp add: demo_run)
  from C5_summary_counts[OF h] h show ?thesis by simp
qed

text \<open>
  C6. \<open>categorize_section\<close> is first-match-wins over the fixed ordered list of rules:
  it returns the label of a rule as soon as the lower-cased concatenation contains one
  of the keywords of that rule and none of the keywords of the rules listed before it,
  whatever keywords of later rules are present; when no keyword of any rule is present it
  returns \<open>other-resources\<close>.
\<close>

theorem C6_first_match_wins:
  "categorize_section U a u c = first_match category_rules (categorize_text U a u c)
   \<and> (\<forall>i < length category_rules.
         (\<exists>k \<in> set (fst (category_rules ! i)). sublist k (categorize_text U a u c))
         \<and> (\<forall>j < i. \<forall>k \<in> set (fst (category_rules ! j)). \<not> sublist k (categorize_text U a u c))
         \<longrightarrow> categorize_section U a u c = snd (category_rules ! i))
   \<and> ((\<forall>r \<in> set category_rules. \<forall>k \<in> set (fst r). \<not> sublist k (categorize_text U a u c))
         \<longrightarrow> categorize_section U a u c = ustr ''other-resources'')"
proof (intro conjI allI impI)
  show "categorize_section U a u c = first_match category_rules (categorize_text U a u c)"
    by (rule categorize_section_first_match)
next
  fix i
  assume "i < length category_rules"
    and "(\<exists>k \<in> set (fst (category_rules ! i)). sublist k (categorize_text U a u c))
         \<and> (\<forall>j < i. \<forall>k \<in> set (fst (category_rules ! j)). \<not> sublist k (categorize_text U a u c))"
  then show "categorize_section U a u c = snd (category_rules ! i)"
    unfolding categorize_section_first_match
    by (intro first_match_hit) (auto simp: any_keyword_in_iff)
next
  assume "\<forall>r \<in> set category_rules. \<forall>k \<in> set (fst r). \<not> sublist k (categorize_text U a u c)"
  then show "categorize_section U a u c = ustr ''other-resources''"
    unfolding categorize_section_first_match
    by (intro first_match_default) (auto simp: any_keyword_in_iff)
qed

text \<open>
  A text with a keyword of the first rule (\<open>cws manual\<close>) and one of the third
  (\<open>practice\<close>) gets the label of the first.
\<close>

theorem C6_first_match_wins_witness:
  "sublist (ustr ''practice'') (categorize_text id (ustr ''CWS Manual'') (ustr ''practice.pdf'') [])
   \<and> ustr ''practice'' \<in> set practice_keywords
   \<and> categorize_section id (ustr ''CWS Manual'') (ustr ''practice.pdf'') []
       = ustr ''child-welfare-manuals''"
proof -
  let ?t = "categorize_text id (ustr ''CWS Manual'') (ustr ''practice.pdf'') []"
  have t: "?t = ustr ''cws manual'' @ ustr '' practice.pdf ''"
    by (rule manual_and_practice_text)
  have m: "\<exists>k \<in> set (fst (category_rules ! 0)). sublist k ?t"
    unfolding t by (rule bexI[of _ "ustr ''cws manual''"])
      (simp_all add: category_rules_def manuals_keywords_def)
  have p: "sublist (ustr ''practice'') ?t"
    unfolding t sublist_def
    by (rule exI[of _ "ustr ''cws manual ''"], rule exI[of _ "ustr ''.pdf ''"])
      (simp add: ustr_def)
  have "categorize_section id (ustr ''CWS Manual'') (ustr ''practice.pdf'') []
          = snd (category_rules ! 0)"
  proof (rule C6_first_match_wins[THEN conjunct2, THEN conjunct1, rule_format, of 0])
    show "0 < length category_rules" by (simp add: category_rules_def)
    show "(\<exists>k \<in> set (fst (category_rules ! 0)). sublist k ?t)
          \<and> (\<forall>j < 0. \<forall>k \<in> set (fst (category_rules ! j)). \<not> sublist k ?t)"
      using m by simp
  qed
  with p show ?thesis by (simp add: category_rules_def practice_keywords_def)
qed

text \<open>
  C7, as the code has it. When the GET succeeds, \<open>download_pdf\<close> accepts the payload
  if and only if the body begins with the four bytes \<open>%PDF\<close> or the declared content
  type, lower-cased (and empty when the header is absent), contains \<open>pdf\<close>: the test
  on the content type does not depend on the case of the letters. When neither holds it
  raises \<open>ValueError\<close> with a message that ends with the lower-cased content type; when
  it accepts, it returns the body together with the lower-cased content type.
\<close>

theorem C7_download_pdf_validation:
  assumes "session_get e (tick w) u = Inr resp"
    and "ct = str_lower (unicode_lower e)
                (case header_content_type resp of None \<Rightarrow> [] | Some h \<Rightarrow> h)"
  shows "((\<exists>r. fst (download_pdf e w u) = Inr r)
            \<longleftrightarrow> (prefix ''%PDF'' (content resp) \<or> sublist (ustr ''pdf'') ct))
       \<and> (\<not> prefix ''%PDF'' (content resp) \<and> \<not> sublist (ustr ''pdf'') ct
            \<longrightarrow> fst (download_pdf e w u)
                  = Inl (ValueError (ustr ''Invalid file type. Expected PDF, got: '' @ ct)))
       \<and> (prefix ''%PDF'' (content resp) \<or> sublist (ustr ''pdf'') ct
            \<longrightarrow> fst (download_pdf e w u) = Inr (content resp, ct))"
  by (simp add: download_pdf_cases[OF assms])

text \<open>
  A PDF served as \<open>Application/Octet-Stream\<close> is accepted for its first bytes; an
  HTML page served as \<open>Text/HTML\<close> is refused, and the message names \<open>text/html\<close>.
\<close>

theorem C7_download_pdf_validation_witness:
  "fst (download_pdf (demo_env (Inr demo_anchors)) demo_world (ustr ''http://h/b.pdf''))
     = Inr (''%PDF-1.4'', ustr ''application/octet-stream'')
   \<and> fst (download_pdf (demo_env (Inr demo_anchors)) demo_world (ustr ''http://h/c.pdf''))
     = Inl (ValueError (ustr ''Invalid file type. Expected PDF, got: '' @ ustr ''text/html''))"
proof -
  let ?e = "demo_env (Inr demo_anchors)"
  let ?b = "\<lparr>header_content_type = Some (ustr ''Application/Octet-Stream''),
             content = ''%PDF-1.4''\<rparr>"
  let ?c = "\<lparr>header_content_type = Some (ustr ''Text/HTML''), content = ''<html>''\<rparr>"
  have gb: "session_get ?e (tick demo_world) (ustr ''http://h/b.pdf'') = Inr ?b"
    by (simp add: demo_env_def ustr_def)
  have gc: "session_get ?e (tick demo_world) (ustr ''http://h/c.pdf'') = Inr ?c"
    by (simp add: demo_env_def ustr_def)
  have tb: "ustr ''application/octet-stream''
              = str_lower (unicode_lower ?e)
                  (case header_content_type ?b of None \<Rightarrow> [] | Some h \<Rightarrow> h)"
    by (simp add: demo_env_fields str_lower_def ascii_lower_def is_upper_def ustr_def)
  have tc: "ustr ''text/html''
              = str_lower (unicode_lower ?e)
                  (case header_content_type ?c of None \<Rightarrow> [] | Some h \<Rightarrow> h)"
    by (simp add: demo_env_fields str_lower_def ascii_lower_def is_upper_def ustr_def)
  have pb: "prefix ''%PDF'' (content ?b) \<or> sublist (ustr ''pdf'') (ustr ''application/octet-stream'')"
    by simp
  have pc: "\<not> prefix ''%PDF'' (content ?c) \<and> \<not> sublist (ustr ''pdf'') (ustr ''text/html'')"
    by (simp add: str_contains_sublist[symmetric] ustr_def)
  from C7_download_pdf_validation[OF gb tb] pb C7_download_pdf_validation[OF gc tc] pc
  show ?thesis by simp
qed

text \<open>
  The claim as it was stated fails. The server answers with an HTML page and declares
  it as \<open>APPLICATION/PDF\<close>: the body does not begin with \<open>%PDF\<close>, the declared
  content type does not contain \<open>pdf\<close>, and yet the payload is accepted; what is
  returned with it is \<open>application/pdf\<close>, not the content type as it was declared.
\<close>

theorem C7_counterexample:
  "session_get (demo_env (Inr demo_anchors)) (tick demo_world) (ustr ''http://h/d.pdf'')
     = Inr \<lparr>header_content_type = Some (ustr ''APPLICATION/PDF''), content = ''<html>''\<rparr>
   \<and> \<not> prefix ''%PDF'' ''<html>''
   \<and> \<not> sublist (ustr ''pdf'') (ustr ''APPLICATION/PDF'')
   \<and> fst (download_pdf (demo_env (Inr demo_anchors)) demo_world (ustr ''http://h/d.pdf''))
       = Inr (''<html>'', ustr ''application/pdf'')
   \<and> ustr ''application/pdf'' \<noteq> ustr ''APPLICATION/PDF''"
  by (simp add: str_contains_sublist[symmetric] download_pdf_def demo_env_def demo_world_def
      startswith_def str_lower_def ascii_lower_def is_upper_def ustr_def)



text \<open>
  C9. When discovery finds no PDF link, \<open>process_pdfs\<close> returns at once a result with
  \<open>success = true\<close>, \<open>summary.total == 0\<close>, no results and the message
  \<open>No PDF links found on the specified page\<close>; when discovery raises an exception, it
  returns a result with \<open>success = false\<close> and the message of the exception.
\<close>

theorem C9_no_links_and_discovery_failure:
  "(discover_pdf_links e w page = (Inr [], w1)
      \<longrightarrow> success (fst (process_pdfs e w page))
        \<and> fst (process_pdfs e w page) =
            No_Links \<lparr>total = 0, successful = 0, failed = 0, sections = []\<rparr> []
              (ustr ''No PDF links found on the specified page''))
   \<and> (discover_pdf_links e w page = (Inl x, w1)
      \<longrightarrow> \<not> success (fst (process_pdfs e w page))
        \<and> (\<exists>ts. fst (process_pdfs e w page) = Failed (exn_str x) ts))"
  by (auto simp: process_pdfs_failed process_pdfs_no_links)

theorem C9_no_links_and_discovery_failure_witness:
  "success (fst (process_pdfs (demo_env (Inr [])) demo_world demo_page))
   \<and> fst (process_pdfs (demo_env (Inr [])) demo_world demo_page)
       = No_Links \<lparr>total = 0, successful = 0, failed = 0, sections = []\<rparr> []
           (ustr ''No PDF links found on the specified page'')
   \<and> \<not> success (fst (process_pdfs (demo_env (Inl (LibraryError (ustr ''Read timed out''))))
                        demo_world demo_page))
   \<and> (\<exists>ts. fst (process_pdfs (demo_env (Inl (LibraryError (ustr ''Read timed out''))))
                  demo_world demo_page)
            = Failed (ustr ''Read timed out'') ts)"
  using
    C9_no_links_and_discovery_failure[of "demo_env (Inr [])" demo_world demo_page
      "\<lparr>s3 = [], tick = 11\<rparr>"]
    C9_no_links_and_discovery_failure[of
      "demo_env (Inl (LibraryError (ustr ''Read timed out'')))" demo_world demo_page
      "\<lparr>s3 = [], tick = 11\<rparr>" "LibraryError (ustr ''Read timed out'')"]
  by (simp add: demo_discover_none demo_discover_fails)

text \<open>
  C10. \<open>upload_to_s3\<close> succeeds exactly when the store accepts the request it sends,
  and that request has the content type \<open>application/pdf\<close> and the key
  \<open>ncdhhs-pdfs/\<close> + \<open>sanitize_folder_name(section)\<close> + \<open>/\<close> +
  \<open>sanitize_filename(filename)\<close>; after a successful upload the object stored under
  that key has the content type \<open>application/pdf\<close>, the bytes given, and a metadata of
  five entries (two readings of the clock, the file name, the source tag, the category).
  For an item that the loop processes with success, the content type that
  \<open>download_pdf\<close> returned is the one of the result entry, and the object stored under
  the key of the entry has the content type \<open>application/pdf\<close>, the downloaded bytes and
  that metadata, in which the content type observed does not occur; and an item is
  processed with success, with the observed content type in its entry, whenever its URL
  parses, its download is accepted and the store refuses no write.
\<close>

theorem C10_stored_content_type_is_constant:
  "((\<exists>up w'. upload_to_s3 e w body fname sect = (Inr up, w'))
      \<longleftrightarrow> put_object_refused e (Suc (Suc (tick w))) (upload_request e w body fname sect) = None)
   \<and> (upload_to_s3 e w body fname sect = (Inr up, w')
      \<longrightarrow> up_key up = ustr ''ncdhhs-pdfs/'' @ sanitize_folder_name (unicode_lower e) sect
                         @ ustr ''/'' @ sanitize_filename (unicode_lower e) fname
        \<and> map_of (s3 w') (bucket_name e, up_key up)
            = Some \<lparr>obj_body = body, obj_content_type = ustr ''application/pdf'',
                    obj_metadata =
                      pdf_metadata fname sect (clock e (tick w)) (clock e (Suc (tick w)))\<rparr>)
   \<and> (try_item e w0 counts l = (Inr r, counts', w1)
      \<longrightarrow> (\<exists>payload wd t1 t2.
              download_pdf e w0 (url l) = (Inr (payload, content_type r), wd)
            \<and> s3_key r = ustr ''ncdhhs-pdfs/''
                           @ sanitize_folder_name (unicode_lower e) (res_section r)
                           @ ustr ''/'' @ sanitize_filename (unicode_lower e) (filename r)
            \<and> map_of (s3 w1) (bucket_name e, s3_key r)
                = Some \<lparr>obj_body = payload, obj_content_type = ustr ''application/pdf'',
                        obj_metadata = pdf_metadata (filename r) (res_section r) t1 t2\<rparr>))
   \<and> (urlparse_path e (url l) = Inr path
        \<and> download_pdf e w0 (url l) = (Inr (fetched, ctype), wa)
        \<and> (\<forall>req. put_object_refused e (Suc (Suc (tick wa))) req = None)
      \<longrightarrow> (\<exists>r' c' w'. try_item e w0 counts l = (Inr r', c', w') \<and> content_type r' = ctype))"
proof (intro conjI impI)
  show "(\<exists>up w'. upload_to_s3 e w body fname sect = (Inr up, w'))
          \<longleftrightarrow> put_object_refused e (Suc (Suc (tick w))) (upload_request e w body fname sect)
              = None"
    by (rule upload_to_s3_succeeds_iff)
next
  assume u: "upload_to_s3 e w body fname sect = (Inr up, w')"
  show "up_key up = ustr ''ncdhhs-pdfs/'' @ sanitize_folder_name (unicode_lower e) sect
                      @ ustr ''/'' @ sanitize_filename (unicode_lower e) fname"
    by (rule upload_to_s3_ok(1)[OF u])
  show "map_of (s3 w') (bucket_name e, up_key up)
          = Some \<lparr>obj_body = body, obj_content_type = ustr ''application/pdf'',
                  obj_metadata =
                    pdf_metadata fname sect (clock e (tick w)) (clock e (Suc (tick w)))\<rparr>"
    by (rule upload_to_s3_ok(2)[OF u])
next
  assume t: "try_item e w0 counts l = (Inr r, counts', w1)"
  from try_item_ok[OF t] obtain payload wd w2 up
    where d: "download_pdf e w0 (url l) = (Inr (payload, content_type r), wd)"
      and u: "upload_to_s3 e wd payload (filename r) (res_section r) = (Inr up, w2)"
      and k: "s3_key r = up_key up" and s: "s3 w1 = s3 w2"
    by blast
  from upload_to_s3_ok[OF u] k s d
  show "\<exists>payload wd t1 t2.
          download_pdf e w0 (url l) = (Inr (payload, content_type r), wd)
        \<and> s3_key r = ustr ''ncdhhs-pdfs/''
                       @ sanitize_folder_name (unicode_lower e) (res_section r)
                       @ ustr ''/'' @ sanitize_filename (unicode_lower e) (filename r)
        \<and> map_of (s3 w1) (bucket_name e, s3_key r)
            = Some \<lparr>obj_body = payload, obj_content_type = ustr ''application/pdf'',
                    obj_metadata = pdf_metadata (filename r) (res_section r) t1 t2\<rparr>"
    by auto
next
  assume "urlparse_path e (url l) = Inr path
            \<and> download_pdf e w0 (url l) = (Inr (fetched, ctype), wa)
            \<and> (\<forall>req. put_object_refused e (Suc (Suc (tick wa))) req = None)"
  then show "\<exists>r' c' w'. try_item e w0 counts l = (Inr r', c', w') \<and> content_type r' = ctype"
    using try_item_succeeds[of e l path w0 fetched ctype wa counts] by blast
qed

text \<open>
  The document served as \<open>Application/Octet-Stream\<close>: the upload of its bytes
  succeeds and stores them as \<open>application/pdf\<close> under
  \<open>ncdhhs-pdfs/other-resources/b.pdf\<close>; the iteration of the loop for it succeeds, its
  entry records \<open>application/octet-stream\<close>, and the object under the key of the
  entry has \<open>application/pdf\<close>.
\<close>

theorem C10_stored_content_type_is_constant_witness:
  "(\<exists>up w'.
      upload_to_s3 (demo_env (Inr demo_anchors)) \<lparr>s3 = [], tick = 13\<rparr> ''%PDF-1.4''
        (ustr ''b.pdf'') (ustr ''other-resources'') = (Inr up, w')
    \<and> up_key up = ustr ''ncdhhs-pdfs/other-resources/b.pdf''
    \<and> (\<exists>obj. map_of (s3 w') (ustr ''bucket'', ustr ''ncdhhs-pdfs/other-resources/b.pdf'')
                = Some obj
          \<and> obj_content_type obj = ustr ''application/pdf''
          \<and> obj_body obj = ''%PDF-1.4''))
   \<and> (\<exists>r c w1.
        try_item (demo_env (Inr demo_anchors)) \<lparr>s3 = [], tick = 12\<rparr> []
          (demo_link ''b.pdf'') = (Inr r, c, w1)
      \<and> content_type r = ustr ''application/octet-stream''
      \<and> (\<exists>obj. map_of (s3 w1) (ustr ''bucket'', s3_key r) = Some obj
            \<and> obj_content_type obj = ustr ''application/pdf''
            \<and> obj_body obj = ''%PDF-1.4''))"
proof -
  let ?e = "demo_env (Inr demo_anchors)"
  let ?w = "\<lparr>s3 = [], tick = 12\<rparr>"
  let ?wd = "\<lparr>s3 = [], tick = 13\<rparr>"
  note C10 = C10_stored_content_type_is_constant
  have acc: "\<forall>req. put_object_refused ?e (Suc (Suc (tick (advance ?w)))) req = None"
    by (simp add: demo_env_fields)
  have "\<exists>up w'. upload_to_s3 ?e ?wd ''%PDF-1.4'' (ustr ''b.pdf'') (ustr ''other-resources'')
                  = (Inr up, w')"
    using C10[THEN conjunct1, of ?e ?wd "''%PDF-1.4''" "ustr ''b.pdf''" "ustr ''other-resources''"]
    by (simp add: demo_env_fields)
  then obtain up w'
    where u: "upload_to_s3 ?e ?wd ''%PDF-1.4'' (ustr ''b.pdf'') (ustr ''other-resources'')
                = (Inr up, w')"
    by blast
  from C10[THEN conjunct2, THEN conjunct1, rule_format, OF u]
  have "up_key up = ustr ''ncdhhs-pdfs/other-resources/b.pdf''"
    and "\<exists>obj. map_of (s3 w') (ustr ''bucket'', ustr ''ncdhhs-pdfs/other-resources/b.pdf'')
                 = Some obj
           \<and> obj_content_type obj = ustr ''application/pdf'' \<and> obj_body obj = ''%PDF-1.4''"
    by (auto simp: demo_env_fields demo_key)
  with u have first: "\<exists>up w'.
      upload_to_s3 ?e ?wd ''%PDF-1.4'' (ustr ''b.pdf'') (ustr ''other-resources'') = (Inr up, w')
    \<and> up_key up = ustr ''ncdhhs-pdfs/other-resources/b.pdf''
    \<and> (\<exists>obj. map_of (s3 w') (ustr ''bucket'', ustr ''ncdhhs-pdfs/other-resources/b.pdf'')
                = Some obj
          \<and> obj_content_type obj = ustr ''application/pdf''
          \<and> obj_body obj = ''%PDF-1.4'')"
    by blast
  have p: "urlparse_path ?e (url (demo_link ''b.pdf'')) = Inr (drop 8 (url (demo_link ''b.pdf'')))"
    by (simp add: demo_env_fields)
  have d: "download_pdf ?e ?w (url (demo_link ''b.pdf''))
             = (Inr (''%PDF-1.4'', ustr ''application/octet-stream''), advance ?w)"
    by (simp add: demo_link_fields demo_download_b)
  have "\<exists>r c w1. try_item ?e ?w [] (demo_link ''b.pdf'') = (Inr r, c, w1)
                    \<and> content_type r = ustr ''application/octet-stream''"
    using C10[THEN conjunct2, THEN conjunct2, THEN conjunct2, of ?e "demo_link ''b.pdf''"
        "drop 8 (url (demo_link ''b.pdf''))" ?w "''%PDF-1.4''" "ustr ''application/octet-stream''"
        "advance ?w" "[]"]
      p d acc
    by blast
  then obtain r c w1
    where t: "try_item ?e ?w [] (demo_link ''b.pdf'') = (Inr r, c, w1)"
      and ct: "content_type r = ustr ''application/octet-stream''"
    by blast
  from C10[THEN conjunct2, THEN conjunct2, THEN conjunct1, rule_format, OF t]
  obtain payload wd' t1 t2
    where d': "download_pdf ?e ?w (url (demo_link ''b.pdf'')) = (Inr (payload, content_type r), wd')"
      and o: "map_of (s3 w1) (bucket_name ?e, s3_key r)
                = Some \<lparr>obj_body = payload, obj_content_type = ustr ''application/pdf'',
                        obj_metadata = pdf_metadata (filename r) (res_section r) t1 t2\<rparr>"
    by blast
  from d d' have "payload = ''%PDF-1.4''" by simp
  with o have "\<exists>obj. map_of (s3 w1) (ustr ''bucket'', s3_key r) = Some obj
                 \<and> obj_content_type obj = ustr ''application/pdf''
                 \<and> obj_body obj = ''%PDF-1.4''"
    by (simp add: demo_env_fields)
  with t ct have second: "\<exists>r c w1.
        try_item ?e ?w [] (demo_link ''b.pdf'') = (Inr r, c, w1)
      \<and> content_type r = ustr ''application/octet-stream''
      \<and> (\<exists>obj. map_of (s3 w1) (ustr ''bucket'', s3_key r) = Some obj
            \<and> obj_content_type obj = ustr ''application/pdf''
            \<and> obj_body obj = ''%PDF-1.4'')"
    by blast
  from first second show ?thesis by blast
qed

end
